theory Spec2Isabelle
  imports Main "HOL-Library.Word"
begin

section \<open>SSH awareness (src/ssh.c): data model\<close>

text \<open>
  Bytes are 8-bit words and \<open>unsigned int\<close> / \<open>uint32_t\<close> are 32-bit words, so that
  subtraction wraps as it does in C. A buffer is the list of the bytes of the object a
  pointer points into, from the pointer on: \<open>data + k\<close> is \<open>drop k data\<close>. A read or
  a write past the end of the object is undefined behaviour in C; the model makes it
  an error value, so that a result \<open>Inr\<close> says that every access stayed inside its
  object.
\<close>

type_synonym byte = "8 word"
type_synonym uint = "32 word"

datatype error = Read_out_of_bounds | Write_out_of_bounds | Uninitialised_read

text \<open>
  Modelled from the spec: \<open>enum role\<close>, declared in ssh.h, which is not among the
  sources. The specification lists the values unknown, client and server; ssh.c names
  \<open>role_unknown\<close> and \<open>role_client\<close>.
\<close>

datatype role = role_unknown | role_client | role_server

text \<open>
  Modelled from the spec: \<open>struct ssh\<close>, declared in ssh.h, which is not among the
  sources. The fields are those ssh.c reads and writes. The cookie has 16 bytes in the
  specification, and ssh.c copies 16 bytes into it. The capacities of the two text
  buffers are not known: they are the lengths of the lists
  (\<open>sizeof(ssh->protocol)\<close> is the length of \<open>protocol s\<close>), so the capacity is a
  parameter of every statement below.
\<close>

record ssh =
  role :: role
  protocol :: "byte list"
  cookie :: "byte list"
  host_key_algos :: "byte list"

text \<open>\<open>sizeof\<close> of an array field, converted to the \<open>unsigned int\<close> parameter.\<close>

definition sizeof_buf :: "byte list \<Rightarrow> uint" where
  "sizeof_buf buf = of_nat (length buf)"

text \<open>The text a reader of a C string sees in a buffer: the bytes before the first 0.\<close>

definition cstring :: "byte list \<Rightarrow> byte list" where
  "cstring buf = takeWhile (\<lambda>c. c \<noteq> 0) buf"

text \<open>A string is terminated inside its buffer when the buffer holds a 0 byte.\<close>

definition terminated :: "byte list \<Rightarrow> bool" where
  "terminated buf = (0 \<in> set buf)"

text \<open>
  \<open>isprint\<close> of ctype.h in the C locale: the codes 0x20 to 0x7E. A byte from 0x80 on
  is not printable, whether \<open>char\<close> is signed or not.
\<close>

definition isprint :: "byte \<Rightarrow> bool" where
  "isprint c = (0x20 \<le> c \<and> c \<le> 0x7E)"

text \<open>The bytes of an ASCII string literal.\<close>

definition bytes_of :: "string \<Rightarrow> byte list" where
  "bytes_of str = map (\<lambda>c. of_nat (of_char c)) str"

section \<open>copy_printable_string\<close>

text \<open>
  The loop \<open>while (buflen-- && datalen--) { if (!isprint(*d)) break; *buf++ = *d++; }\<close>.
  \<open>buf\<close> is the destination object with the offset \<open>i\<close> of the moving pointer,
  \<open>d\<close> the source from the moving pointer on. The result is the destination and the
  offset at which the loop stopped. The decrement of a counter that is already 0 wraps,
  but the counters are dead after the loop.
\<close>

function copy_loop ::
  "byte list \<Rightarrow> nat \<Rightarrow> uint \<Rightarrow> byte list \<Rightarrow> uint \<Rightarrow> error + (byte list \<times> nat)" where
  "copy_loop buf i buflen d datalen =
     (if buflen = 0 then Inr (buf, i)
      else if datalen = 0 then Inr (buf, i)
      else if d = [] then Inl Read_out_of_bounds
      else if \<not> isprint (hd d) then Inr (buf, i)
      else if length buf \<le> i then Inl Write_out_of_bounds
      else copy_loop (buf[i := hd d]) (i + 1) (buflen - 1) (tl d) (datalen - 1))"
  by pat_completeness auto
termination
  by (relation "measure (\<lambda>(buf, i, buflen, d, datalen). unat buflen)")
     (auto simp: unat_minus_one unat_gt_0)

declare copy_loop.simps [simp del]

text \<open>The loop, then \<open>*buf = 0\<close> at the offset where it stopped.\<close>

definition copy_printable_string ::
  "byte list \<Rightarrow> uint \<Rightarrow> byte list \<Rightarrow> uint \<Rightarrow> error + byte list" where
  "copy_printable_string buf buflen data datalen =
     (case copy_loop buf 0 buflen data datalen of
        Inl e \<Rightarrow> Inl e
      | Inr (buf', i) \<Rightarrow>
          if length buf' \<le> i then Inl Write_out_of_bounds else Inr (buf'[i := 0]))"

section \<open>ssh_packet_parse\<close>

text \<open>
  \<open>ntohl\<close> of the 32-bit value at the pointer: the big-endian reading of four bytes.
\<close>

definition decode_uint32 :: "byte list \<Rightarrow> error + uint" where
  "decode_uint32 data =
     (if length data < 4 then Inl Read_out_of_bounds
      else Inr (ucast (data ! 0) * 2 ^ 24 + ucast (data ! 1) * 2 ^ 16
                + ucast (data ! 2) * 2 ^ 8 + ucast (data ! 3)))"

text \<open>
  In \<open>ssh_packet_parse\<close> the name \<open>ssh_packet\<close> is the local pointer variable, so
  \<open>sizeof(ssh_packet)\<close> is the size of a pointer: 8 bytes on the LP64 platforms the
  program is built for. The packed \<open>struct ssh_packet\<close> itself has 6 bytes.
\<close>

definition sizeof_ssh_packet_pointer :: uint where
  "sizeof_ssh_packet_pointer = 8"

definition sizeof_struct_ssh_packet :: nat where
  "sizeof_struct_ssh_packet = 6"

text \<open>
  The result is the returned length and the value stored through \<open>msg_code\<close>, \<open>None\<close>
  when the function did not assign it. \<open>packet_length\<close> is at offset 0,
  \<open>padding_length\<close> at offset 4 and \<open>payload\<close> at offset 5 of the packed structure.
\<close>

definition ssh_packet_parse :: "byte list \<Rightarrow> uint \<Rightarrow> error + (uint \<times> byte option)" where
  "ssh_packet_parse pkt datalen =
     (if datalen < sizeof_ssh_packet_pointer then Inr (0, None)
      else case decode_uint32 pkt of
        Inl e \<Rightarrow> Inl e
      | Inr len \<Rightarrow>
          if len > 32768 then Inr (0, None)
          else if length pkt \<le> 5 then Inl Read_out_of_bounds
          else Inr (len - ucast (pkt ! 4) - 5, Some (pkt ! 5)))"

section \<open>ssh_parse_kexinit\<close>

text \<open>\<open>memcpy(dst, src, n)\<close>: the first \<open>n\<close> bytes of \<open>dst\<close> replaced.\<close>

definition memcpy :: "byte list \<Rightarrow> byte list \<Rightarrow> nat \<Rightarrow> error + byte list" where
  "memcpy dst src n =
     (if length src < n then Inl Read_out_of_bounds
      else if length dst < n then Inl Write_out_of_bounds
      else Inr (take n src @ drop n dst))"

definition ssh_parse_kexinit :: "ssh \<Rightarrow> byte list \<Rightarrow> uint \<Rightarrow> error + ssh" where
  "ssh_parse_kexinit s data datalen =
     (if datalen < 16 then Inr s
      else case memcpy (cookie s) data 16 of
        Inl e \<Rightarrow> Inl e
      | Inr ck \<Rightarrow>
          let s1 = s\<lparr>cookie := ck\<rparr>;
              data1 = drop 16 data;
              datalen1 = datalen - 16
          in if datalen1 < 4 then Inr s1
             else case decode_uint32 data1 of
               Inl e \<Rightarrow> Inl e
             | Inr len \<Rightarrow>
                 if len = 0 then Inr s1
                 else case copy_printable_string (host_key_algos s1)
                             (sizeof_buf (host_key_algos s1)) (drop 4 data1) (datalen1 - 4) of
                   Inl e \<Rightarrow> Inl e
                 | Inr algos \<Rightarrow> Inr (s1\<lparr>host_key_algos := algos\<rparr>))"

section \<open>ssh_init and ssh_update\<close>

text \<open>\<open>memset(buf, 0, sizeof(buf))\<close>.\<close>

definition memset0 :: "byte list \<Rightarrow> byte list" where
  "memset0 buf = replicate (length buf) 0"

definition ssh_init :: "ssh \<Rightarrow> error + ssh" where
  "ssh_init s =
     (if protocol s = [] then Inl Write_out_of_bounds
      else Inr (s\<lparr>role := role_unknown, protocol := (protocol s)[0 := 0],
                  cookie := memset0 (cookie s),
                  host_key_algos := memset0 (host_key_algos s)\<rparr>))"

text \<open>
  The zero-initialised record whose text buffers have the capacities \<open>pc\<close> and \<open>ac\<close>;
  the cookie has 16 bytes.
\<close>

definition ssh_zero :: "nat \<Rightarrow> nat \<Rightarrow> ssh" where
  "ssh_zero pc ac =
     \<lparr>role = role_unknown, protocol = replicate pc 0, cookie = replicate 16 0,
      host_key_algos = replicate ac 0\<rparr>"

definition SSH_MSG_KEXINIT :: byte where
  "SSH_MSG_KEXINIT = 20"

text \<open>The first part of the body of \<open>ssh_update\<close>: the banner.\<close>

definition ssh_update_banner :: "ssh \<Rightarrow> byte list \<Rightarrow> uint \<Rightarrow> error + ssh" where
  "ssh_update_banner s data len =
     (if role s = role_unknown then
        (if protocol s = [] then Inl Read_out_of_bounds
         else if protocol s ! 0 = 0 then
           (case copy_printable_string (protocol s) (sizeof_buf (protocol s)) data len of
              Inl e \<Rightarrow> Inl e
            | Inr banner \<Rightarrow> Inr (s\<lparr>protocol := banner, role := role_client\<rparr>))
         else Inr s)
      else Inr s)"

text \<open>
  \<open>msg_code\<close> is an uninitialised local: reading it when \<open>ssh_packet_parse\<close> has not
  assigned it would be a read of an indeterminate value.
\<close>

definition ssh_update :: "ssh \<Rightarrow> byte list \<Rightarrow> uint \<Rightarrow> uint \<Rightarrow> error + ssh" where
  "ssh_update s data len report_ssh =
     (if len = 0 then Inr s
      else if report_ssh \<noteq> 0 then
        (case ssh_update_banner s data len of
           Inl e \<Rightarrow> Inl e
         | Inr s1 \<Rightarrow>
             (case ssh_packet_parse data len of
                Inl e \<Rightarrow> Inl e
              | Inr (length', msg_code) \<Rightarrow>
                  if length' = 0 then Inr s1
                  else (case msg_code of
                          None \<Rightarrow> Inl Uninitialised_read
                        | Some c \<Rightarrow>
                            if c = SSH_MSG_KEXINIT
                            then ssh_parse_kexinit s1 (drop sizeof_struct_ssh_packet data) length'
                            else Inr s1)))
      else Inr s)"

text \<open>
  A sequence of calls \<open>ssh_update(ssh, data, len, report_ssh)\<close> on one record, in
  order; it stops at the first call that leaves the defined behaviour.
\<close>

fun ssh_update_calls :: "ssh \<Rightarrow> (byte list \<times> uint \<times> uint) list \<Rightarrow> error + ssh" where
  "ssh_update_calls s [] = Inr s"
| "ssh_update_calls s ((data, len, report_ssh) # calls) =
     (case ssh_update s data len report_ssh of
        Inl e \<Rightarrow> Inl e
      | Inr s' \<Rightarrow> ssh_update_calls s' calls)"

section \<open>Notions of the specification\<close>

text \<open>
  The printable prefix of the first \<open>m\<close> bytes of a source: what a copy that stops
  at the first byte that is not printable takes from them.
\<close>

definition printable_prefix :: "nat \<Rightarrow> byte list \<Rightarrow> byte list" where
  "printable_prefix m d = takeWhile isprint (take m d)"

text \<open>A call of \<open>ssh_update\<close> that the function skips: no bytes, or analysis off.\<close>

definition skipped_call :: "byte list \<times> uint \<times> uint \<Rightarrow> bool" where
  "skipped_call c = (case c of (data, len, report_ssh) \<Rightarrow> len = 0 \<or> report_ssh = 0)"

text \<open>
  The scenario of a banner followed by a KEXINIT packet. The packet is a complete
  KEXINIT message of RFC 4253, section 7.1, in the framing of section 6. The payload
  is the message code 20, the 16 bytes of cookie, the ten name-lists (the first one
  \<open>diffie-hellman-group14-sha1\<close>, the two language lists empty), the boolean
  \<open>first_kex_packet_follows\<close> and the reserved word: 142 bytes. 5 bytes of padding
  bring the whole to 152 bytes, a multiple of 8; \<open>packet_length\<close> counts the
  padding-length byte, the payload and the padding, 148.
\<close>

definition demo_cookie :: "byte list" where
  "demo_cookie = [1, 2, 3, 4, 5, 6, 7, 8, 9, 10, 11, 12, 13, 14, 15, 16]"

definition demo_kexinit_packet :: "byte list" where
  "demo_kexinit_packet =
     [0, 0, 0, 148, 5, 20] @ demo_cookie
     @ [0, 0, 0, 27] @ bytes_of ''diffie-hellman-group14-sha1''
     @ [0, 0, 0, 7] @ bytes_of ''ssh-rsa''
     @ [0, 0, 0, 10] @ bytes_of ''aes128-ctr''
     @ [0, 0, 0, 10] @ bytes_of ''aes128-ctr''
     @ [0, 0, 0, 9] @ bytes_of ''hmac-sha1''
     @ [0, 0, 0, 9] @ bytes_of ''hmac-sha1''
     @ [0, 0, 0, 4] @ bytes_of ''none''
     @ [0, 0, 0, 4] @ bytes_of ''none''
     @ [0, 0, 0, 0]
     @ [0, 0, 0, 0]
     @ [0]
     @ [0, 0, 0, 0]
     @ replicate 5 0"

text \<open>A call with a chunk of \<open>n\<close> zero bytes, analysis on.\<close>

definition zero_chunk :: "nat \<Rightarrow> byte list \<times> uint \<times> uint" where
  "zero_chunk n = (replicate n 0, of_nat n, 1)"

section \<open>The copy loop in closed form\<close>

lemma printable_prefix_0 [simp]: "printable_prefix 0 d = []"
  by (simp add: printable_prefix_def)

lemma printable_prefix_Nil [simp]: "printable_prefix m [] = []"
  by (simp add: printable_prefix_def)

lemma printable_prefix_Suc_Cons [simp]:
  "printable_prefix (Suc m) (c # d) = (if isprint c then c # printable_prefix m d else [])"
  by (simp add: printable_prefix_def)

lemma printable_prefix_isprint: "c \<in> set (printable_prefix m d) \<Longrightarrow> isprint c"
  unfolding printable_prefix_def by (auto dest: set_takeWhileD)

lemma length_printable_prefix_le: "length (printable_prefix m d) \<le> m"
  unfolding printable_prefix_def by (rule order_trans [OF length_takeWhile_le]) simp

lemma unat_pred: "(w :: uint) \<noteq> 0 \<Longrightarrow> unat (w - 1) = unat w - 1"
  by (simp add: unat_minus_one)

text \<open>
  What the loop does, for every destination, source and pair of counters: it takes the
  printable prefix of the first \<open>min buflen datalen\<close> source bytes. It writes past the
  destination when that prefix does not fit, and reads past the source when the source
  object ends, all printable, before either counter is used up.
\<close>

lemma copy_loop_eq:
  "i \<le> length buf \<Longrightarrow>
   copy_loop buf i buflen d datalen =
     (let pre = printable_prefix (min (unat buflen) (unat datalen)) d;
          n = length pre
      in if length buf < i + n then Inl Write_out_of_bounds
         else if n = length d \<and> n < min (unat buflen) (unat datalen) then Inl Read_out_of_bounds
         else Inr (take i buf @ pre @ drop (i + n) buf, i + n))"
proof (induction buf i buflen d datalen rule: copy_loop.induct)
  case (1 buf i buflen d datalen)
  show ?case
  proof (cases "buflen = 0 \<or> datalen = 0")
    case True
    then show ?thesis using "1.prems"
      by (subst copy_loop.simps) auto
  next
    case nz: False
    then have pos: "0 < unat buflen" "0 < unat datalen"
      by (simp_all add: unat_gt_0)
    then obtain m where m: "min (unat buflen) (unat datalen) = Suc m"
      by (cases "min (unat buflen) (unat datalen)") auto
    have "unat (buflen - 1) = unat buflen - 1" "unat (datalen - 1) = unat datalen - 1"
      using nz by (simp_all add: unat_pred)
    then have m': "min (unat (buflen - 1)) (unat (datalen - 1)) = m"
      using m by arith
    show ?thesis
    proof (cases d)
      case Nil
      then show ?thesis using nz m "1.prems"
        by (subst copy_loop.simps) simp
    next
      case (Cons c d')
      show ?thesis
      proof (cases "isprint c")
        case False
        then show ?thesis using nz m Cons "1.prems"
          by (subst copy_loop.simps) simp
      next
        case pr: True
        show ?thesis
        proof (cases "length buf \<le> i")
          case True
          then show ?thesis using nz m Cons pr "1.prems"
            by (subst copy_loop.simps) simp
        next
          case False
          then have lt: "i < length buf" by simp
          have IH: "copy_loop (buf[i := c]) (i + 1) (buflen - 1) d' (datalen - 1) =
             (let pre = printable_prefix m d'; n = length pre
              in if length buf < i + 1 + n then Inl Write_out_of_bounds
                 else if n = length d' \<and> n < m then Inl Read_out_of_bounds
                 else Inr (take (i + 1) (buf[i := c]) @ pre @ drop (i + 1 + n) (buf[i := c]),
                           i + 1 + n))"
            using "1.IH" nz Cons pr lt m' by (simp add: Let_def)
          have upd: "take (i + 1) (buf[i := c]) = take i buf @ [c]"
            using lt by (simp add: take_Suc_conv_app_nth)
          show ?thesis
            using nz Cons pr lt m IH upd
            by (subst copy_loop.simps) (simp add: Let_def)
        qed
      qed
    qed
  qed
qed

lemma append_drop_update:
  "length pre < length buf \<Longrightarrow>
   (pre @ drop (length pre) buf)[length pre := x] = pre @ x # drop (Suc (length pre)) buf"
  by (simp add: list_update_append drop_update_cancel upd_conv_take_nth_drop drop_Suc [symmetric])

lemma copy_printable_string_eq:
  "copy_printable_string buf buflen d datalen =
     (let pre = printable_prefix (min (unat buflen) (unat datalen)) d;
          n = length pre
      in if length buf < n then Inl Write_out_of_bounds
         else if n = length d \<and> n < min (unat buflen) (unat datalen) then Inl Read_out_of_bounds
         else if length buf \<le> n then Inl Write_out_of_bounds
         else Inr (pre @ 0 # drop (Suc n) buf))"
  by (simp add: copy_printable_string_def copy_loop_eq Let_def append_drop_update)

lemma isprint_nonzero: "isprint c \<Longrightarrow> c \<noteq> 0"
  by (auto simp: isprint_def)

lemma cstring_printable_prefix:
  "cstring (printable_prefix m d @ 0 # rest) = printable_prefix m d"
  by (auto simp: cstring_def takeWhile_tail dest: printable_prefix_isprint isprint_nonzero)

lemma sizeof_buf_unat: "length buf < 2 ^ 32 \<Longrightarrow> unat (sizeof_buf buf) = length buf"
  by (simp add: sizeof_buf_def of_nat_inverse)

lemma Cons_replicate_pred: "0 < n \<Longrightarrow> x # replicate (n - Suc 0) x = replicate n x"
  by (cases n) simp_all

text \<open>The banner step on the zero-initialised record, for every chunk.\<close>

lemma ssh_update_banner_zero:
  assumes "0 < pc" and "pc < 2 ^ 32"
  shows "ssh_update_banner (ssh_zero pc ac) d len =
     (let pre = printable_prefix (min pc (unat len)) d; n = length pre
      in if n = length d \<and> n < min pc (unat len) then Inl Read_out_of_bounds
         else if pc \<le> n then Inl Write_out_of_bounds
         else Inr ((ssh_zero pc ac)\<lparr>protocol := pre @ replicate (pc - n) 0,
                                     role := role_client\<rparr>))"
proof -
  define pre where "pre = printable_prefix (min pc (unat len)) d"
  have sz: "unat (sizeof_buf (replicate pc (0 :: byte))) = pc"
    using assms by (simp add: sizeof_buf_unat)
  have le: "length pre \<le> pc"
    unfolding pre_def by (rule order_trans [OF length_printable_prefix_le]) simp
  have tail: "(0 :: byte) # replicate (pc - Suc (length pre)) 0 = replicate (pc - length pre) 0"
    if "length pre < pc"
    using that Cons_replicate_pred [of "pc - length pre" "0 :: byte"] by simp
  show ?thesis
    using assms le tail
    by (simp add: ssh_update_banner_def ssh_zero_def copy_printable_string_eq sz Let_def
        flip: pre_def)
qed

lemma copy_printable_string_replicate:
  assumes "n < 2 ^ 32"
  shows "copy_printable_string (replicate n 0) (sizeof_buf (replicate n 0)) d len =
     (let pre = printable_prefix (min n (unat len)) d; k = length pre
      in if k = length d \<and> k < min n (unat len) then Inl Read_out_of_bounds
         else if n \<le> k then Inl Write_out_of_bounds
         else Inr (pre @ replicate (n - k) 0))"
proof -
  define pre where "pre = printable_prefix (min n (unat len)) d"
  have sz: "unat (sizeof_buf (replicate n (0 :: byte))) = n"
    using assms by (simp add: sizeof_buf_unat)
  have le: "length pre \<le> n"
    unfolding pre_def by (rule order_trans [OF length_printable_prefix_le]) simp
  have tail: "(0 :: byte) # replicate (n - Suc (length pre)) 0 = replicate (n - length pre) 0"
    if "length pre < n"
    using that Cons_replicate_pred [of "n - length pre" "0 :: byte"] by simp
  show ?thesis
    using assms le tail
    by (simp add: copy_printable_string_eq sz Let_def flip: pre_def)
qed

text \<open>Whenever the copy stays inside the destination, the destination is terminated.\<close>

lemma copy_printable_string_terminated:
  "copy_printable_string buf buflen d datalen = Inr buf' \<Longrightarrow> terminated buf'"
  unfolding copy_printable_string_eq Let_def terminated_def
  by (simp split: if_splits) auto

lemma takeWhile_take_comm: "takeWhile P (take m xs) = take m (takeWhile P xs)"
proof (induction xs arbitrary: m)
  case Nil
  show ?case by simp
next
  case (Cons x xs)
  show ?case by (cases m) (simp_all add: Cons.IH)
qed

lemma printable_prefix_stable:
  assumes "length (printable_prefix m d) < m" and "m \<le> m'"
  shows "printable_prefix m' d = printable_prefix m d"
proof -
  have "length (takeWhile isprint d) < m"
    using assms(1) by (simp add: printable_prefix_def takeWhile_take_comm)
  with assms(2) show ?thesis
    by (simp add: printable_prefix_def takeWhile_take_comm)
qed

section \<open>The bounded printable copier\<close>

text \<open>
  C2. A destination of capacity 2 and the printable source \<open>AB\<close> of length 2: the
  claim has 1 byte copied and the terminator at offset 1. The loop tests
  \<open>buflen--\<close>, so it copies as many bytes as the capacity, 2, and the terminator goes
  to offset 2, outside a destination of 2 bytes. In a destination object of 3 bytes of
  which the function is told 2, the same call leaves \<open>AB\<close> and the terminator at
  offset 2.
\<close>

theorem copy_printable_string_off_by_one:
  "copy_printable_string [0x58, 0x58] 2 [0x41, 0x42] 2 = Inl Write_out_of_bounds
   \<and> copy_printable_string [0x58, 0x58, 0x58] 2 [0x41, 0x42] 2 = Inr [0x41, 0x42, 0]"
  by (simp add: copy_printable_string_eq printable_prefix_def isprint_def)

section \<open>The packet framer\<close>

text \<open>
  C6. A buffer of fewer than 6 bytes is rejected: the function returns 0 and does not
  assign the message code. The result is not an error for any object behind the
  pointer, the empty one included, so no byte is read at all, inside or outside
  \<open>data[0..n)\<close>.
\<close>

theorem ssh_packet_parse_short:
  "datalen < 6 \<Longrightarrow> ssh_packet_parse pkt datalen = Inr (0, None)"
proof -
  assume "datalen < 6"
  then have "datalen < 8"
    by (simp add: word_less_nat_alt)
  then show ?thesis
    by (simp add: ssh_packet_parse_def sizeof_ssh_packet_pointer_def)
qed

theorem ssh_packet_parse_short_witness:
  "(5 :: uint) < 6 \<and> ssh_packet_parse [] 5 = Inr (0, None)
   \<and> ssh_packet_parse [0, 0, 0, 12, 4] 5 = Inr (0, None)"
  using ssh_packet_parse_short [of 5 "[]"] ssh_packet_parse_short [of 5 "[0, 0, 0, 12, 4]"]
  by simp

text \<open>
  C7. When the length passes the size check and the big-endian packet length read from
  the first four bytes is above 32768, the function returns 0.
\<close>

theorem ssh_packet_parse_ceiling:
  "\<not> datalen < sizeof_ssh_packet_pointer \<Longrightarrow> decode_uint32 pkt = Inr len \<Longrightarrow> 32768 < len \<Longrightarrow>
   ssh_packet_parse pkt datalen = Inr (0, None)"
  by (simp add: ssh_packet_parse_def)

theorem ssh_packet_parse_ceiling_witness:
  "\<not> (8 :: uint) < sizeof_ssh_packet_pointer
   \<and> decode_uint32 [0, 0, 128, 1, 0, 20, 0, 0] = Inr 32769 \<and> (32768 :: uint) < 32769
   \<and> ssh_packet_parse [0, 0, 128, 1, 0, 20, 0, 0] 8 = Inr (0, None)"
proof -
  have a: "\<not> (8 :: uint) < sizeof_ssh_packet_pointer"
    by (simp add: sizeof_ssh_packet_pointer_def)
  have b: "decode_uint32 [0, 0, 128, 1, 0, 20, 0, 0] = Inr 32769"
    by (simp add: decode_uint32_def)
  have c: "(32768 :: uint) < 32769"
    by simp
  from a b c ssh_packet_parse_ceiling [OF a b c] show ?thesis
    by simp
qed

text \<open>
  C10. A buffer of 6 or 7 bytes holds the whole 6-byte header, and is rejected all the
  same: the size check compares the length with the size of the pointer, 8.
\<close>

theorem ssh_packet_parse_six_seven:
  "datalen = 6 \<or> datalen = 7 \<Longrightarrow> ssh_packet_parse pkt datalen = Inr (0, None)"
  by (auto simp: ssh_packet_parse_def sizeof_ssh_packet_pointer_def)

theorem ssh_packet_parse_six_seven_witness:
  "ssh_packet_parse [0, 0, 0, 12, 4, 20] 6 = Inr (0, None)
   \<and> ssh_packet_parse [0, 0, 0, 12, 4, 20, 1] 7 = Inr (0, None)
   \<and> sizeof_struct_ssh_packet = 6"
  using ssh_packet_parse_six_seven [of 6 "[0, 0, 0, 12, 4, 20]"]
    ssh_packet_parse_six_seven [of 7 "[0, 0, 0, 12, 4, 20, 1]"]
  by (simp add: sizeof_struct_ssh_packet_def)

text \<open>
  C3. The header \<open>00 00 00 00 00 14\<close> declares the packet length 0 and the padding
  length 0: the padding and the 5 bytes of overhead exceed the packet length. The
  function does not fail: the subtraction wraps and it returns 4294967291 with the
  message code 20. \<open>ssh_update\<close> then hands that length to the KEXINIT decoder, which
  reads 16 bytes where the chunk has 2 left.
\<close>

theorem ssh_packet_parse_underflow:
  "ssh_packet_parse [0, 0, 0, 0, 0, 20, 0, 0] 8 = Inr (4294967291, Some 20)
   \<and> ssh_update (ssh_zero 8 8) [0, 0, 0, 0, 0, 20, 0, 0] 8 1 = Inl Read_out_of_bounds"
proof -
  have parse: "ssh_packet_parse [0, 0, 0, 0, 0, 20, 0, 0] 8 = Inr (4294967291, Some 20)"
    by (simp add: ssh_packet_parse_def sizeof_ssh_packet_pointer_def decode_uint32_def)
  have banner: "ssh_update_banner (ssh_zero 8 8) [0, 0, 0, 0, 0, 20, 0, 0] 8
      = Inr ((ssh_zero 8 8)\<lparr>role := role_client\<rparr>)"
    by (simp add: ssh_update_banner_zero printable_prefix_def isprint_def)
       (simp add: ssh_zero_def)
  have "ssh_parse_kexinit ((ssh_zero 8 8)\<lparr>role := role_client\<rparr>) [0, 0] 4294967291
      = Inl Read_out_of_bounds"
    by (simp add: ssh_parse_kexinit_def memcpy_def)
  with parse banner show ?thesis
    by (simp add: ssh_update_def SSH_MSG_KEXINIT_def sizeof_struct_ssh_packet_def)
qed

section \<open>The KEXINIT decoder\<close>

lemma ssh_parse_kexinit_frame:
  "ssh_parse_kexinit s data datalen = Inr s' \<Longrightarrow> role s' = role s \<and> protocol s' = protocol s"
  by (auto simp: ssh_parse_kexinit_def Let_def split: if_splits sum.splits)

lemma ssh_parse_kexinit_cookie:
  "ssh_parse_kexinit s data datalen = Inr s' \<Longrightarrow> length (cookie s) = 16 \<Longrightarrow>
   s' = s \<or> cookie s' = take 16 data"
  by (auto simp: ssh_parse_kexinit_def Let_def memcpy_def split: if_splits sum.splits)

text \<open>
  C1, as stated, fails. A payload of exactly 16 bytes passes the first validation, the
  cookie is copied, and the second validation (4 bytes for the length field) aborts
  the decode: the cookie is overwritten and \<open>host_key_algos\<close> keeps its prior value.
  \<open>ssh_update\<close> reaches that state with a chunk whose header declares the packet
  length 21.
\<close>

theorem ssh_parse_kexinit_partial_overwrite:
  "ssh_parse_kexinit (ssh_zero 8 8) (replicate 16 0x41) 16
     = Inr ((ssh_zero 8 8)\<lparr>cookie := replicate 16 0x41\<rparr>)
   \<and> cookie ((ssh_zero 8 8)\<lparr>cookie := replicate 16 0x41\<rparr>) \<noteq> cookie (ssh_zero 8 8)
   \<and> host_key_algos ((ssh_zero 8 8)\<lparr>cookie := replicate 16 0x41\<rparr>)
       = host_key_algos (ssh_zero 8 8)
   \<and> ssh_update (ssh_zero 8 8) ([0, 0, 0, 21, 0, 20] @ replicate 16 0x41) 22 1
       = Inr ((ssh_zero 8 8)\<lparr>role := role_client, cookie := replicate 16 0x41\<rparr>)"
proof -
  have kex: "ssh_parse_kexinit s (replicate 16 0x41) 16 = Inr (s\<lparr>cookie := replicate 16 0x41\<rparr>)"
    if "cookie s = replicate 16 0" for s
    using that by (simp add: ssh_parse_kexinit_def memcpy_def)
  have banner: "ssh_update_banner (ssh_zero 8 8) ([0, 0, 0, 21, 0, 20] @ replicate 16 0x41) 22
      = Inr ((ssh_zero 8 8)\<lparr>role := role_client\<rparr>)"
    by (simp add: ssh_update_banner_zero printable_prefix_def isprint_def)
       (simp add: ssh_zero_def)
  have parse: "ssh_packet_parse ([0, 0, 0, 21, 0, 20] @ replicate 16 0x41) 22 = Inr (16, Some 20)"
    by (simp add: ssh_packet_parse_def sizeof_ssh_packet_pointer_def decode_uint32_def)
  have "cookie ((ssh_zero 8 8)\<lparr>role := role_client\<rparr>) = replicate 16 0"
    by (simp add: ssh_zero_def)
  then have "ssh_update (ssh_zero 8 8) ([0, 0, 0, 21, 0, 20] @ replicate 16 0x41) 22 1
       = Inr ((ssh_zero 8 8)\<lparr>role := role_client, cookie := replicate 16 0x41\<rparr>)"
    unfolding ssh_update_def banner parse
    by (simp add: SSH_MSG_KEXINIT_def sizeof_struct_ssh_packet_def kex)
  moreover have "cookie ((ssh_zero 8 8)\<lparr>cookie := replicate 16 0x41\<rparr>) \<noteq> cookie (ssh_zero 8 8)"
    by (simp add: ssh_zero_def)
  ultimately show ?thesis
    by (simp add: kex ssh_zero_def)
qed

text \<open>
  C1, amended. For a record whose cookie has 16 bytes and a payload that holds the
  \<open>datalen\<close> bytes it is said to hold: a decode that aborts for lack of cookie data
  (\<open>datalen < 16\<close>) leaves the record as it was; a decode that aborts later (fewer than
  4 bytes after the cookie, or a name-list length of 0) has written the cookie, the
  first 16 bytes of the payload, and nothing else; and \<open>host_key_algos\<close> is never
  written without the cookie.
\<close>

theorem ssh_parse_kexinit_abort:
  assumes "length (cookie s) = 16" and "unat datalen \<le> length data"
  shows "(datalen < 16 \<longrightarrow> ssh_parse_kexinit s data datalen = Inr s)
    \<and> (\<not> datalen < 16 \<and> (datalen - 16 < 4 \<or> decode_uint32 (drop 16 data) = Inr 0) \<longrightarrow>
          ssh_parse_kexinit s data datalen = Inr (s\<lparr>cookie := take 16 data\<rparr>))
    \<and> (\<forall>s'. ssh_parse_kexinit s data datalen = Inr s' \<longrightarrow>
          host_key_algos s' \<noteq> host_key_algos s \<longrightarrow> cookie s' = take 16 data)"
proof (intro conjI impI allI)
  assume "datalen < 16"
  then show "ssh_parse_kexinit s data datalen = Inr s"
    by (simp add: ssh_parse_kexinit_def)
next
  assume a: "\<not> datalen < 16 \<and> (datalen - 16 < 4 \<or> decode_uint32 (drop 16 data) = Inr 0)"
  then have "16 \<le> unat datalen"
    by (simp add: word_less_nat_alt)
  with assms have "memcpy (cookie s) data 16 = Inr (take 16 data)"
    by (simp add: memcpy_def)
  with a show "ssh_parse_kexinit s data datalen = Inr (s\<lparr>cookie := take 16 data\<rparr>)"
    by (auto simp: ssh_parse_kexinit_def Let_def)
next
  fix s'
  assume "ssh_parse_kexinit s data datalen = Inr s'" "host_key_algos s' \<noteq> host_key_algos s"
  then show "cookie s' = take 16 data"
    using ssh_parse_kexinit_cookie [of s data datalen s'] assms by auto
qed

theorem ssh_parse_kexinit_abort_witness:
  "length (cookie (ssh_zero 8 8)) = 16
   \<and> unat (20 :: uint) \<le> length (demo_cookie @ [0, 0, 0, 0])
   \<and> \<not> (20 :: uint) < 16
   \<and> decode_uint32 (drop 16 (demo_cookie @ [0, 0, 0, 0])) = Inr 0
   \<and> ssh_parse_kexinit (ssh_zero 8 8) (demo_cookie @ [0, 0, 0, 0]) 20
       = Inr ((ssh_zero 8 8)\<lparr>cookie := demo_cookie\<rparr>)"
proof -
  have a: "length (cookie (ssh_zero 8 8)) = 16"
    by (simp add: ssh_zero_def)
  have b: "unat (20 :: uint) \<le> length (demo_cookie @ [0, 0, 0, 0])"
    by (simp add: demo_cookie_def)
  have c: "decode_uint32 (drop 16 (demo_cookie @ [0, 0, 0, 0])) = Inr 0"
    by (simp add: decode_uint32_def demo_cookie_def)
  have d: "take 16 (demo_cookie @ [0, 0, 0, 0]) = demo_cookie"
    by (simp add: demo_cookie_def)
  have e: "\<not> (20 :: uint) < 16"
    by simp
  have "ssh_parse_kexinit (ssh_zero 8 8) (demo_cookie @ [0, 0, 0, 0]) 20
       = Inr ((ssh_zero 8 8)\<lparr>cookie := take 16 (demo_cookie @ [0, 0, 0, 0])\<rparr>)"
    using ssh_parse_kexinit_abort [OF a b] e c by blast
  then have r: "ssh_parse_kexinit (ssh_zero 8 8) (demo_cookie @ [0, 0, 0, 0]) 20
       = Inr ((ssh_zero 8 8)\<lparr>cookie := demo_cookie\<rparr>)"
    by (simp only: d)
  from a b e c r show ?thesis
    by (intro conjI)
qed

section \<open>The accumulator\<close>

text \<open>
  C9. A call with no bytes, and a call with analysis off, return the record as it was,
  whatever the record and whatever the other arguments.
\<close>

theorem ssh_update_noop:
  "ssh_update s data 0 report_ssh = Inr s \<and> ssh_update s data len 0 = Inr s"
  by (simp add: ssh_update_def)

lemma ssh_update_skipped: "skipped_call (d, len, r) \<Longrightarrow> ssh_update s d len r = Inr s"
  by (auto simp: skipped_call_def ssh_update_def)

lemma ssh_update_calls_skipped:
  "\<forall>c \<in> set calls. skipped_call c \<Longrightarrow> ssh_update_calls s calls = Inr s"
  by (induction calls) (auto simp: ssh_update_skipped)

lemma ssh_update_calls_append:
  "ssh_update_calls s (xs @ ys) =
     (case ssh_update_calls s xs of Inl e \<Rightarrow> Inl e | Inr s' \<Rightarrow> ssh_update_calls s' ys)"
  by (induction xs arbitrary: s) (auto split: sum.splits)

text \<open>Once the role is client, a call changes neither the role nor the banner.\<close>

lemma ssh_update_client:
  assumes "role s = role_client" and "ssh_update s d len r = Inr s'"
  shows "role s' = role_client \<and> protocol s' = protocol s"
proof -
  have b: "ssh_update_banner s d len = Inr s"
    using assms(1) by (simp add: ssh_update_banner_def)
  show ?thesis
    using assms ssh_parse_kexinit_frame [of s _ _ s']
    by (auto simp: ssh_update_def b split: if_splits sum.splits option.splits)
qed

lemma ssh_update_calls_client:
  "role s = role_client \<Longrightarrow> ssh_update_calls s calls = Inr s' \<Longrightarrow>
   role s' = role_client \<and> protocol s' = protocol s"
proof (induction calls arbitrary: s)
  case Nil
  then show ?case by simp
next
  case (Cons c calls)
  obtain d len r where c: "c = (d, len, r)"
    by (cases c)
  from Cons.prems c obtain s1 where s1: "ssh_update s d len r = Inr s1"
    and rest: "ssh_update_calls s1 calls = Inr s'"
    by (auto split: sum.splits)
  from ssh_update_client [OF Cons.prems(1) s1] Cons.IH [OF _ rest] show ?case
    by simp
qed

lemma ssh_update_client_short:
  "role s = role_client \<Longrightarrow> len < 8 \<Longrightarrow> ssh_update s d len r = Inr s"
  by (simp add: ssh_update_def ssh_update_banner_def ssh_packet_parse_def
      sizeof_ssh_packet_pointer_def)

text \<open>
  The banner step on the zero-initialised record, when it stays inside the buffer:
  the banner is the printable prefix of the chunk.
\<close>

lemma ssh_update_banner_zero_Inr:
  assumes "pc < 2 ^ 32" and "ssh_update_banner (ssh_zero pc ac) d len = Inr s1"
  shows "role s1 = role_client \<and> cstring (protocol s1) = printable_prefix (unat len) d"
proof (cases "pc = 0")
  case True
  with assms(2) show ?thesis
    by (simp add: ssh_update_banner_def ssh_zero_def)
next
  case False
  then have pos: "0 < pc" by simp
  define pre where "pre = printable_prefix (min pc (unat len)) d"
  from assms(2) have fit: "length pre < pc"
    and s1: "s1 = (ssh_zero pc ac)\<lparr>protocol := pre @ replicate (pc - length pre) 0,
                                    role := role_client\<rparr>"
    unfolding ssh_update_banner_zero [OF pos assms(1)] Let_def pre_def [symmetric]
    by (auto split: if_splits)
  from fit obtain k where k: "pc - length pre = Suc k"
    by (cases "pc - length pre") auto
  have "length pre < min pc (unat len) \<or> min pc (unat len) = unat len"
    using fit by (auto simp: min_def)
  then have "printable_prefix (unat len) d = pre"
  proof
    assume "length pre < min pc (unat len)"
    then show ?thesis
      unfolding pre_def by (rule printable_prefix_stable) simp
  next
    assume "min pc (unat len) = unat len"
    then show ?thesis by (simp add: pre_def)
  qed
  moreover have "protocol s1 = pre @ 0 # replicate k 0"
    by (simp add: s1 k)
  moreover have "cstring (pre @ 0 # replicate k 0) = pre"
    unfolding pre_def by (rule cstring_printable_prefix)
  ultimately show ?thesis
    by (simp add: s1)
qed

lemma ssh_update_first:
  assumes "pc < 2 ^ 32" and "\<not> skipped_call (d, len, r)"
    and "ssh_update (ssh_zero pc ac) d len r = Inr s1"
  shows "role s1 = role_client \<and> cstring (protocol s1) = printable_prefix (unat len) d"
proof -
  from assms(2,3) obtain sb where sb: "ssh_update_banner (ssh_zero pc ac) d len = Inr sb"
    by (auto simp: ssh_update_def skipped_call_def split: sum.splits)
  have frame: "role s1 = role sb \<and> protocol s1 = protocol sb"
    using assms(2,3) sb ssh_parse_kexinit_frame [of sb _ _ s1]
    by (auto simp: ssh_update_def skipped_call_def split: if_splits sum.splits option.splits)
  with ssh_update_banner_zero_Inr [OF assms(1) sb] show ?thesis
    by simp
qed

text \<open>
  At every capacity, a first chunk of as many printable bytes as the banner buffer
  holds makes the copy write its terminator past the buffer.
\<close>

lemma ssh_update_banner_overflow:
  assumes "0 < pc" and "pc < 2 ^ 32"
  shows "ssh_update (ssh_zero pc ac) (replicate pc 0x41) (of_nat pc) 1 = Inl Write_out_of_bounds"
proof -
  have u: "unat (of_nat pc :: uint) = pc"
    using assms by (simp add: of_nat_inverse)
  then have nz: "(of_nat pc :: uint) \<noteq> 0"
    using assms by (auto simp: unat_eq_zero [symmetric] simp del: unat_eq_zero)
  have "printable_prefix pc (replicate pc 0x41) = replicate pc 0x41"
    by (simp add: printable_prefix_def isprint_def)
  then have "ssh_update_banner (ssh_zero pc ac) (replicate pc 0x41) (of_nat pc)
      = Inl Write_out_of_bounds"
    by (simp add: ssh_update_banner_zero [OF assms] u)
  then show ?thesis
    using nz by (simp add: ssh_update_def)
qed

text \<open>
  The banner step on the zero-initialised record writes outside the banner buffer
  exactly when the printable prefix it copies fills the whole buffer.
\<close>

lemma ssh_update_banner_zero_overflow_iff:
  assumes "0 < pc" and "pc < 2 ^ 32"
  shows "(ssh_update_banner (ssh_zero pc ac) d len = Inl Write_out_of_bounds)
     = (length (printable_prefix (min pc (unat len)) d) = pc)"
proof -
  have "length (printable_prefix (min pc (unat len)) d) \<le> min pc (unat len)"
    by (rule length_printable_prefix_le)
  then show ?thesis
    unfolding ssh_update_banner_zero [OF assms] Let_def by auto
qed

text \<open>
  C5. From the zero-initialised record with a banner buffer of 4 bytes, the first call
  has the chunk \<open>AAAA\<close>, analysis on. The claim has that call set the banner to the
  printable prefix of the chunk. The copy takes the 4 bytes, which fill the buffer, and
  writes the terminator at offset 4, outside the buffer: the call leaves the defined
  behaviour and the banner buffer holds no terminated string. It is the defect of the
  copier of C2, reached through \<open>ssh_update\<close>.
\<close>

theorem ssh_update_banner_overflow_4:
  "ssh_update (ssh_zero 4 4) [0x41, 0x41, 0x41, 0x41] 4 1 = Inl Write_out_of_bounds"
  by (simp add: ssh_update_def ssh_update_banner_zero printable_prefix_def isprint_def)

text \<open>
  On the runs in which no call reads or writes outside a buffer, the accumulator keeps
  to the state machine. The skipped calls before the first call with bytes and
  analysis on leave the zero-initialised record untouched, role unknown. That first
  call sets the role to client and the banner to the printable prefix of its chunk.
  After every later call, whatever its content, the role is still client and the
  banner buffer is unchanged.
\<close>

lemma ssh_update_calls_banner_once:
  assumes run: "ssh_update_calls (ssh_zero pc ac) (pre @ (d, len, r) # post) = Inr s'"
    and pre: "\<forall>c \<in> set pre. skipped_call c"
    and first: "\<not> skipped_call (d, len, r)"
    and cap: "pc < 2 ^ 32"
  shows "ssh_update_calls (ssh_zero pc ac) pre = Inr (ssh_zero pc ac)
    \<and> (\<exists>s1. ssh_update (ssh_zero pc ac) d len r = Inr s1
          \<and> role s1 = role_client
          \<and> cstring (protocol s1) = printable_prefix (unat len) d
          \<and> (\<forall>k \<le> length post. \<exists>s2. ssh_update_calls s1 (take k post) = Inr s2
                \<and> role s2 = role_client \<and> protocol s2 = protocol s1))"
proof -
  have skip: "ssh_update_calls (ssh_zero pc ac) pre = Inr (ssh_zero pc ac)"
    using pre by (rule ssh_update_calls_skipped)
  with run obtain s1 where s1: "ssh_update (ssh_zero pc ac) d len r = Inr s1"
    and rest: "ssh_update_calls s1 post = Inr s'"
    by (auto simp: ssh_update_calls_append split: sum.splits)
  note b = ssh_update_first [OF cap first s1]
  have later: "\<exists>s2. ssh_update_calls s1 (take k post) = Inr s2
      \<and> role s2 = role_client \<and> protocol s2 = protocol s1" for k
  proof -
    have "ssh_update_calls s1 (take k post @ drop k post) = Inr s'"
      using rest by simp
    then obtain s2 where s2: "ssh_update_calls s1 (take k post) = Inr s2"
      unfolding ssh_update_calls_append by (auto split: sum.splits)
    with ssh_update_calls_client [of s1 "take k post" s2] b show ?thesis
      by simp
  qed
  from skip s1 b later show ?thesis
    by blast
qed

lemma ssh_update_calls_banner_once_example:
  "ssh_update_calls (ssh_zero 8 8)
      ([([0x41], 0, 1), ([0x42], 1, 0)] @ ([0x48, 0x69, 0x0A], 3, 1) # [([0x42], 1, 1)])
     = Inr ((ssh_zero 8 8)\<lparr>protocol := 0x48 # 0x69 # replicate 6 0, role := role_client\<rparr>)
   \<and> skipped_call ([0x41], 0, 1) \<and> skipped_call ([0x42], 1, 0)
   \<and> \<not> skipped_call ([0x48, 0x69, 0x0A], 3, 1)
   \<and> (8 :: nat) < 2 ^ 32
   \<and> (\<exists>s1. ssh_update (ssh_zero 8 8) [0x48, 0x69, 0x0A] 3 1 = Inr s1
          \<and> role s1 = role_client
          \<and> cstring (protocol s1) = printable_prefix (unat (3 :: uint)) [0x48, 0x69, 0x0A]
          \<and> (\<forall>k \<le> length [([0x42 :: byte], 1 :: uint, 1 :: uint)].
                \<exists>s2. ssh_update_calls s1 (take k [([0x42], 1, 1)]) = Inr s2
                \<and> role s2 = role_client \<and> protocol s2 = protocol s1))
   \<and> printable_prefix (unat (3 :: uint)) [0x48, 0x69, 0x0A] = [0x48, 0x69]"
proof -
  let ?s1 = "(ssh_zero 8 8)\<lparr>protocol := 0x48 # 0x69 # replicate 6 0, role := role_client\<rparr>"
  have pre: "\<forall>c \<in> set [([0x41], 0, 1), ([0x42], 1, 0)]. skipped_call c"
    by (simp add: skipped_call_def)
  have first: "\<not> skipped_call ([0x48, 0x69, 0x0A], 3, 1)"
    by (simp add: skipped_call_def)
  have cap: "(8 :: nat) < 2 ^ 32"
    by simp
  have pp: "printable_prefix (unat (3 :: uint)) [0x48, 0x69, 0x0A] = [0x48, 0x69]"
    by (simp add: printable_prefix_def isprint_def)
  have "ssh_update_banner (ssh_zero 8 8) [0x48, 0x69, 0x0A] 3 = Inr ?s1"
    by (simp add: ssh_update_banner_zero printable_prefix_def isprint_def)
  then have u1: "ssh_update (ssh_zero 8 8) [0x48, 0x69, 0x0A] 3 1 = Inr ?s1"
    by (simp add: ssh_update_def ssh_packet_parse_def sizeof_ssh_packet_pointer_def)
  have u2: "ssh_update ?s1 [0x42] 1 1 = Inr ?s1"
    by (rule ssh_update_client_short) simp_all
  have run: "ssh_update_calls (ssh_zero 8 8)
      ([([0x41], 0, 1), ([0x42], 1, 0)] @ ([0x48, 0x69, 0x0A], 3, 1) # [([0x42], 1, 1)])
     = Inr ?s1"
    unfolding ssh_update_calls_append ssh_update_calls_skipped [OF pre]
    by (simp add: u1 u2)
  have sk: "skipped_call ([0x41], 0, 1)" "skipped_call ([0x42], 1, 0)"
    by (simp_all add: skipped_call_def)
  from run sk first cap ssh_update_calls_banner_once [OF run pre first cap, THEN conjunct2] pp
  show ?thesis
    by (intro conjI)
qed

text \<open>The record that \<open>ssh_init\<close> makes of the zero-initialised record is that record.\<close>

lemma ssh_init_zero: "0 < pc \<Longrightarrow> ssh_init (ssh_zero pc ac) = Inr (ssh_zero pc ac)"
  by (cases pc) (simp_all add: ssh_init_def ssh_zero_def memset0_def)

text \<open>
  C8. From the zero-initialised record, nine calls with chunks of 1 to 9 zero bytes,
  analysis on, end in the record with role client, an empty banner, an all-zero cookie
  and an empty algorithm list. The first chunk sets the role and copies nothing, the
  zero byte not being printable. The chunks of 1 to 7 bytes fail the size check of
  the framer; those of 8 and 9 bytes pass it and are framed with message code 0,
  which is not KEXINIT.
\<close>

theorem ssh_update_zero_chunks:
  assumes "0 < pc" and "pc < 2 ^ 32"
  shows "ssh_update_calls (ssh_zero pc ac)
       [zero_chunk 1, zero_chunk 2, zero_chunk 3, zero_chunk 4, zero_chunk 5, zero_chunk 6,
        zero_chunk 7, zero_chunk 8, zero_chunk 9]
     = Inr ((ssh_zero pc ac)\<lparr>role := role_client\<rparr>)
   \<and> cstring (protocol ((ssh_zero pc ac)\<lparr>role := role_client\<rparr>)) = []
   \<and> cookie ((ssh_zero pc ac)\<lparr>role := role_client\<rparr>) = replicate 16 0
   \<and> cstring (host_key_algos ((ssh_zero pc ac)\<lparr>role := role_client\<rparr>)) = []"
proof -
  let ?s = "(ssh_zero pc ac)\<lparr>role := role_client\<rparr>"
  have "ssh_update_banner (ssh_zero pc ac) [0] 1 = Inr ?s"
    using assms by (simp add: ssh_update_banner_zero [OF assms] isprint_def printable_prefix_def)
      (simp add: ssh_zero_def)
  then have first: "ssh_update (ssh_zero pc ac) [0] 1 1 = Inr ?s"
    by (simp add: ssh_update_def ssh_packet_parse_def sizeof_ssh_packet_pointer_def)
  have short: "ssh_update ?s d len 1 = Inr ?s" if "len < 8" for d len
    using that by (simp add: ssh_update_client_short)
  have p8: "ssh_packet_parse (replicate 8 0) 8 = Inr (4294967291, Some 0)"
    by (simp add: ssh_packet_parse_def sizeof_ssh_packet_pointer_def decode_uint32_def)
  have p9: "ssh_packet_parse (replicate 9 0) 9 = Inr (4294967291, Some 0)"
    by (simp add: ssh_packet_parse_def sizeof_ssh_packet_pointer_def decode_uint32_def)
  have long: "ssh_update ?s (replicate 8 0) 8 1 = Inr ?s" "ssh_update ?s (replicate 9 0) 9 1 = Inr ?s"
    by (simp_all add: ssh_update_def ssh_update_banner_def p8 p9 SSH_MSG_KEXINIT_def)
  have run: "ssh_update_calls (ssh_zero pc ac)
       [zero_chunk 1, zero_chunk 2, zero_chunk 3, zero_chunk 4, zero_chunk 5, zero_chunk 6,
        zero_chunk 7, zero_chunk 8, zero_chunk 9] = Inr ?s"
    by (simp add: zero_chunk_def first short long)
  have z: "cstring (replicate n 0) = []" for n
    by (cases n) (simp_all add: cstring_def)
  from run show ?thesis
    by (simp add: ssh_zero_def z)
qed

theorem ssh_update_zero_chunks_witness:
  "(0 :: nat) < 256 \<and> (256 :: nat) < 2 ^ 32
   \<and> ssh_update_calls (ssh_zero 256 256)
       [zero_chunk 1, zero_chunk 2, zero_chunk 3, zero_chunk 4, zero_chunk 5, zero_chunk 6,
        zero_chunk 7, zero_chunk 8, zero_chunk 9]
     = Inr ((ssh_zero 256 256)\<lparr>role := role_client\<rparr>)"
proof -
  have a: "(0 :: nat) < 256" and b: "(256 :: nat) < 2 ^ 32"
    by simp_all
  from a b ssh_update_zero_chunks [OF a b, of 256, THEN conjunct1] show ?thesis
    by (intro conjI)
qed

lemma cstring_append_zeros:
  "0 \<notin> set xs \<Longrightarrow> 0 < n \<Longrightarrow> cstring (xs @ replicate n 0) = xs"
  by (cases n) (auto simp: cstring_def takeWhile_tail)

text \<open>
  C4. The banner chunk \<open>SSH-2.0-demo\<close>, then one chunk with the complete KEXINIT
  packet, analysis on, from the zero-initialised record with room for the two texts:
  the final record has the banner \<open>SSH-2.0-demo\<close>, the 16 bytes of the cookie
  and the algorithm list \<open>diffie-hellman-group14-sha1\<close>. The framer returns 138 for
  the packet; the decoder copies the cookie, reads the length 27, and the copy of the
  name-list stops at the first byte of the length field of the second name-list, which
  is 0.
\<close>

theorem ssh_update_banner_then_kexinit:
  assumes "12 < pc" and "pc < 2 ^ 32" and "27 < ac" and "ac < 2 ^ 32"
  shows "ssh_update_calls (ssh_zero pc ac)
       [(bytes_of ''SSH-2.0-demo'', 12, 1), (demo_kexinit_packet, 152, 1)]
     = Inr \<lparr>role = role_client,
            protocol = bytes_of ''SSH-2.0-demo'' @ replicate (pc - 12) 0,
            cookie = demo_cookie,
            host_key_algos = bytes_of ''diffie-hellman-group14-sha1'' @ replicate (ac - 27) 0\<rparr>
   \<and> cstring (bytes_of ''SSH-2.0-demo'' @ replicate (pc - 12) 0) = bytes_of ''SSH-2.0-demo''
   \<and> cstring (bytes_of ''diffie-hellman-group14-sha1'' @ replicate (ac - 27) 0)
       = bytes_of ''diffie-hellman-group14-sha1''"
proof -
  let ?s1 = "(ssh_zero pc ac)\<lparr>protocol := bytes_of ''SSH-2.0-demo'' @ replicate (pc - 12) 0,
                               role := role_client\<rparr>"
  let ?algos = "bytes_of ''diffie-hellman-group14-sha1'' @ replicate (ac - 27) 0"
  have pos: "0 < pc" using assms by simp
  have banner: "ssh_update_banner (ssh_zero pc ac) (bytes_of ''SSH-2.0-demo'') 12 = Inr ?s1"
    using assms
    by (simp add: ssh_update_banner_zero [OF pos] bytes_of_def printable_prefix_def isprint_def)
  have parse1: "ssh_packet_parse (bytes_of ''SSH-2.0-demo'') 12 = Inr (0, None)"
    by (simp add: ssh_packet_parse_def sizeof_ssh_packet_pointer_def decode_uint32_def bytes_of_def)
  have first: "ssh_update (ssh_zero pc ac) (bytes_of ''SSH-2.0-demo'') 12 1 = Inr ?s1"
    by (simp add: ssh_update_def banner parse1)
  have parse2: "ssh_packet_parse demo_kexinit_packet 152 = Inr (138, Some 20)"
    by (simp add: ssh_packet_parse_def sizeof_ssh_packet_pointer_def decode_uint32_def
        demo_kexinit_packet_def demo_cookie_def)
  have p28: "printable_prefix 28 (drop 26 demo_kexinit_packet)
      = bytes_of ''diffie-hellman-group14-sha1''"
    by (simp add: demo_kexinit_packet_def demo_cookie_def bytes_of_def printable_prefix_def
        isprint_def)
  have len: "length (bytes_of ''diffie-hellman-group14-sha1'') = 27"
    by (simp add: bytes_of_def)
  have pp: "printable_prefix (min ac 118) (drop 26 demo_kexinit_packet)
      = bytes_of ''diffie-hellman-group14-sha1''"
  proof -
    have "length (printable_prefix 28 (drop 26 demo_kexinit_packet)) < 28"
      by (simp add: p28 len)
    moreover have "28 \<le> min ac 118"
      using assms by simp
    ultimately show ?thesis
      using printable_prefix_stable [of 28 "drop 26 demo_kexinit_packet" "min ac 118"] p28
      by simp
  qed
  have lend: "length demo_kexinit_packet = 152"
    by (simp add: demo_kexinit_packet_def demo_cookie_def bytes_of_def)
  have cp: "copy_printable_string (replicate ac 0) (sizeof_buf (replicate ac 0))
      (drop 26 demo_kexinit_packet) 118 = Inr ?algos"
    using assms by (simp add: copy_printable_string_replicate pp len lend)
  have mc: "memcpy (replicate 16 0) (drop 6 demo_kexinit_packet) 16 = Inr demo_cookie"
    by (simp add: memcpy_def demo_kexinit_packet_def demo_cookie_def bytes_of_def)
  have dec: "decode_uint32 (drop 22 demo_kexinit_packet) = Inr 27"
    by (simp add: decode_uint32_def demo_kexinit_packet_def demo_cookie_def bytes_of_def)
  have kex: "ssh_parse_kexinit ?s1 (drop 6 demo_kexinit_packet) 138 =
     Inr (?s1\<lparr>cookie := demo_cookie, host_key_algos := ?algos\<rparr>)"
    by (simp add: ssh_parse_kexinit_def ssh_zero_def mc dec cp)
  have second: "ssh_update ?s1 demo_kexinit_packet 152 1 =
     Inr (?s1\<lparr>cookie := demo_cookie, host_key_algos := ?algos\<rparr>)"
    by (simp add: ssh_update_def ssh_update_banner_def parse2 SSH_MSG_KEXINIT_def
        sizeof_struct_ssh_packet_def kex)
  have "ssh_update_calls (ssh_zero pc ac)
     [(bytes_of ''SSH-2.0-demo'', 12, 1), (demo_kexinit_packet, 152, 1)] =
     Inr (?s1\<lparr>cookie := demo_cookie, host_key_algos := ?algos\<rparr>)"
    by (simp add: first second)
  then have run: "ssh_update_calls (ssh_zero pc ac)
       [(bytes_of ''SSH-2.0-demo'', 12, 1), (demo_kexinit_packet, 152, 1)]
     = Inr \<lparr>role = role_client,
            protocol = bytes_of ''SSH-2.0-demo'' @ replicate (pc - 12) 0,
            cookie = demo_cookie,
            host_key_algos = ?algos\<rparr>"
    by (simp add: ssh_zero_def)
  have nz1: "0 \<notin> set (bytes_of ''SSH-2.0-demo'')"
    by (simp add: bytes_of_def)
  have nz2: "0 \<notin> set (bytes_of ''diffie-hellman-group14-sha1'')"
    by (simp add: bytes_of_def)
  have c1: "cstring (bytes_of ''SSH-2.0-demo'' @ replicate (pc - 12) 0) = bytes_of ''SSH-2.0-demo''"
    using assms by (intro cstring_append_zeros nz1) simp
  have c2: "cstring ?algos = bytes_of ''diffie-hellman-group14-sha1''"
    using assms by (intro cstring_append_zeros nz2) simp
  from run c1 c2 show ?thesis
    by (intro conjI)
qed

theorem ssh_update_banner_then_kexinit_witness:
  "(12 :: nat) < 256 \<and> (256 :: nat) < 2 ^ 32 \<and> (27 :: nat) < 256
   \<and> length demo_kexinit_packet = 152
   \<and> ssh_update_calls (ssh_zero 256 256)
       [(bytes_of ''SSH-2.0-demo'', 12, 1), (demo_kexinit_packet, 152, 1)]
     = Inr \<lparr>role = role_client,
            protocol = bytes_of ''SSH-2.0-demo'' @ replicate (256 - 12) 0,
            cookie = demo_cookie,
            host_key_algos = bytes_of ''diffie-hellman-group14-sha1'' @ replicate (256 - 27) 0\<rparr>"
proof -
  have a: "(12 :: nat) < 256" and b: "(256 :: nat) < 2 ^ 32" and c: "(27 :: nat) < 256"
    by simp_all
  have l: "length demo_kexinit_packet = 152"
    by (simp add: demo_kexinit_packet_def demo_cookie_def bytes_of_def)
  from a b c l ssh_update_banner_then_kexinit [OF a b c b, THEN conjunct1] show ?thesis
    by (intro conjI)
qed

end
